theory Spec2Isabelle
  imports Main
begin

section \<open>Python values used by the slot engine\<close>

text \<open>
  Python strings are modelled as \<^typ>\<open>string\<close>, read as the UTF-8 bytes of the text.
  Every separator the source splits or replaces on is either ASCII or a whole code point,
  so working on the bytes gives the same cells as working on code points.  The whitespace
  of \<^verbatim>\<open>str.split()\<close> and \<^verbatim>\<open>str.strip()\<close> is the ASCII whitespace of Python.
\<close>

definition is_space :: "char \<Rightarrow> bool" where
  "is_space c = (c = CHR '' '' \<or> c = CHR 0x09 \<or> c = CHR 0x0A \<or> c = CHR 0x0B \<or> c = CHR 0x0C
     \<or> c = CHR 0x0D \<or> c = CHR 0x1C \<or> c = CHR 0x1D \<or> c = CHR 0x1E \<or> c = CHR 0x1F)"

text \<open>\<^verbatim>\<open>s.split()\<close>: the maximal runs of non-whitespace, in order; \<open>cur\<close> is the run being
  read, reversed.\<close>

fun split_ws_from :: "string \<Rightarrow> string \<Rightarrow> string list" where
  "split_ws_from cur [] = (if cur = [] then [] else [rev cur])"
| "split_ws_from cur (c # cs) =
     (if is_space c then (if cur = [] then split_ws_from [] cs else rev cur # split_ws_from [] cs)
      else split_ws_from (c # cur) cs)"

definition py_split :: "string \<Rightarrow> string list" where
  "py_split s = split_ws_from [] s"

text \<open>\<^verbatim>\<open>s.split(sep)\<close> for a one-character separator: empty cells are kept, and the result
  always has at least one cell.\<close>

fun split_on :: "char \<Rightarrow> string \<Rightarrow> string list" where
  "split_on sep [] = [[]]"
| "split_on sep (c # cs) =
     (if c = sep then [] # split_on sep cs
      else (case split_on sep cs of [] \<Rightarrow> [[c]] | w # ws \<Rightarrow> (c # w) # ws))"

text \<open>\<^verbatim>\<open>s.strip()\<close>.\<close>

definition strip :: "string \<Rightarrow> string" where
  "strip s = rev (dropWhile is_space (rev (dropWhile is_space s)))"

text \<open>\<^verbatim>\<open>s.replace(old, new)\<close> for a non-empty \<open>old\<close>: non-overlapping occurrences, left to
  right.  (The source only replaces non-empty strings; for an empty \<open>old\<close> this function
  returns \<open>s\<close>.)\<close>

function replace :: "string \<Rightarrow> string \<Rightarrow> string \<Rightarrow> string" where
  "replace old new [] = []"
| "replace old new (c # cs) =
     (if old \<noteq> [] \<and> take (length old) (c # cs) = old
      then new @ replace old new (drop (length old) (c # cs))
      else c # replace old new cs)"
  by pat_completeness auto
termination
  by (relation "measure (\<lambda>(old, new, s). length s)") (auto simp: neq_Nil_conv)

text \<open>\<^verbatim>\<open>' '.join(ws)\<close>.\<close>

fun space_join :: "string list \<Rightarrow> string" where
  "space_join [] = []"
| "space_join [w] = w"
| "space_join (w # w' # ws) = w @ '' '' @ space_join (w' # ws)"

text \<open>
  A Python \<^verbatim>\<open>dict\<close> from strings to strings, as the list of its items in insertion order.
  Assigning to a key that is present keeps its position; a new key goes to the end.
  Iterating a dict yields its keys in this order (the order Python guarantees from
  version 3.7 on).
\<close>

type_synonym py_dict = "(string \<times> string) list"

fun dict_set :: "py_dict \<Rightarrow> string \<Rightarrow> string \<Rightarrow> py_dict" where
  "dict_set [] k v = [(k, v)]"
| "dict_set ((k', v') # d) k v = (if k' = k then (k, v) # d else (k', v') # dict_set d k v)"

definition dict_keys :: "py_dict \<Rightarrow> string list" where
  "dict_keys d = map fst d"

text \<open>\<^verbatim>\<open>d.get(k, default)\<close>.\<close>

definition dict_get :: "py_dict \<Rightarrow> string \<Rightarrow> string \<Rightarrow> string" where
  "dict_get d k dflt = (case map_of d k of Some v \<Rightarrow> v | None \<Rightarrow> dflt)"

text \<open>A token of the preprocessing pipeline: a dict with at least the key \<^verbatim>\<open>_text\<close>.\<close>

record token =
  token_text :: string

text \<open>The exceptions the modelled code raises.  \<open>ExternalError\<close> stands for whatever an
  external collaborator (the classifier pipeline, the recogniser process, unpickling) raises.\<close>

datatype error =
    NotImplementedError string
  | KeyError string
  | IndexError
  | ValueError
  | AssertionError
  | AttributeError string
  | Exception string
  | ExternalError string

text \<open>The structured output of the external recogniser, with Python's truthiness.\<close>

datatype json =
    JNull
  | JBool bool
  | JNumber int
  | JString string
  | JList "json list"
  | JDict "(string \<times> json) list"

fun truthy :: "json \<Rightarrow> bool" where
  "truthy JNull = False"
| "truthy (JBool b) = b"
| "truthy (JNumber n) = (n \<noteq> 0)"
| "truthy (JString s) = (s \<noteq> [])"
| "truthy (JList xs) = (xs \<noteq> [])"
| "truthy (JDict kvs) = (kvs \<noteq> [])"

text \<open>What a resolution returns when it is not \<^verbatim>\<open>None\<close>: a canonical value, or the
  recogniser's output.\<close>

datatype rvalue = Str string | Structured json

text \<open>
  The collaborators that are not part of the repository's slot module are parameters:
  \<open>fuzz_partial_ratio\<close> is \<^verbatim>\<open>fuzz.partial_ratio\<close>, and \<open>tomita_get_json\<close> is
  \<^verbatim>\<open>Tomita.get_json\<close> of the recogniser every \<^verbatim>\<open>TomitaSlot\<close> builds from the same fixed
  paths.  A trained classifier is its \<^verbatim>\<open>predict\<close> on one tokenized text, each label
  already read through \<^verbatim>\<open>bool\<close>.
\<close>

record externals =
  fuzz_partial_ratio :: "string \<Rightarrow> string \<Rightarrow> int"
  tomita_get_json :: "string \<Rightarrow> error + json"

type_synonym model = "token list \<Rightarrow> error + bool list"

section \<open>The slot classes\<close>

text \<open>
  The attributes \<^verbatim>\<open>DictionarySlot.__init__\<close> sets.  \<open>values_order\<close> is the constructor's
  argument of that name: the source does not store it (only \<^verbatim>\<open>ClassifierSlot\<close> reads its
  first element), and no operation below reads the field; it is recorded so that
  statements about the canonical values a slot was built with can be written down.
  The \<^verbatim>\<open>filters\<close> registry plays no part in resolution or loading and is left out.
  A compositional slot refers to its children by identity; here it holds them as values,
  which resolution, a read-only operation, cannot tell apart.
\<close>

record slot_base =
  slot_id :: string
  ask_sentence :: string
  gen_dict :: py_dict
  nongen_dict :: py_dict
  threshold :: int
  values_order :: "string list"

datatype slot =
    DictionarySlot slot_base
  | CurrencySlot slot_base "string list"
  | ClassifierSlot slot_base string "model option"
  | CompositionalSlot slot_base "slot list"
  | TomitaSlot slot_base
  | GeoSlot slot_base

fun base :: "slot \<Rightarrow> slot_base" where
  "base (DictionarySlot b) = b"
| "base (CurrencySlot b supported_slots) = b"
| "base (ClassifierSlot b true model) = b"
| "base (CompositionalSlot b children) = b"
| "base (TomitaSlot b) = b"
| "base (GeoSlot b) = b"

subsection \<open>Dictionary resolution\<close>

text \<open>\<^verbatim>\<open>_normal_value\<close>.  Its argument is \<^verbatim>\<open>None\<close> when no key was kept by the scan;
  \<^verbatim>\<open>None\<close> is a key of neither dict, so both \<^verbatim>\<open>get\<close>s fall through to \<^verbatim>\<open>''\<close>.\<close>

definition normal_value :: "slot_base \<Rightarrow> string option \<Rightarrow> string" where
  "normal_value self text =
     (case text of
        None \<Rightarrow> []
      | Some t \<Rightarrow> dict_get (gen_dict self) t (dict_get (nongen_dict self) t []))"

text \<open>The \<^verbatim>\<open>for v in chain(self.gen_dict, self.nongen_dict)\<close> loop of \<^verbatim>\<open>_infer\<close>, on the
  pair \<open>(best_score, best_match)\<close>.\<close>

fun best_scan ::
  "(string \<Rightarrow> string \<Rightarrow> int) \<Rightarrow> string \<Rightarrow> string list \<Rightarrow> int \<times> string option \<Rightarrow> int \<times> string option"
where
  "best_scan ratio str_text [] (best_score, best_match) = (best_score, best_match)"
| "best_scan ratio str_text (v # vs) (best_score, best_match) =
     (let score = ratio v str_text in
      if score > best_score then best_scan ratio str_text vs (score, Some v)
      else best_scan ratio str_text vs (best_score, best_match))"

text \<open>\<^verbatim>\<open>DictionarySlot._infer\<close>.\<close>

definition infer :: "(string \<Rightarrow> string \<Rightarrow> int) \<Rightarrow> slot_base \<Rightarrow> token list \<Rightarrow> string option" where
  "infer ratio self text =
     (let str_text = space_join (map token_text text);
          (best_score, best_match) =
             best_scan ratio str_text (dict_keys (gen_dict self) @ dict_keys (nongen_dict self)) (0, None)
      in if best_score \<ge> threshold self then Some (normal_value self best_match) else None)"

text \<open>\<^verbatim>\<open>self._infer(text)\<close> with the method resolved by class: \<^verbatim>\<open>TomitaSlot\<close> overrides
  it, every other class inherits the dictionary routine.\<close>

fun infer_method :: "externals \<Rightarrow> slot \<Rightarrow> token list \<Rightarrow> error + rvalue option" where
  "infer_method ext (TomitaSlot b) text =
     (case tomita_get_json ext (space_join (map token_text text)) of
        Inl e \<Rightarrow> Inl e
      | Inr j \<Rightarrow> Inr (if truthy j then Some (Structured j) else None))"
| "infer_method ext s text = Inr (map_option Str (infer (fuzz_partial_ratio ext) (base s) text))"

subsection \<open>The two entry points\<close>

text \<open>
  \<^verbatim>\<open>infer_from_compositional_request\<close>: \<^verbatim>\<open>ClassifierSlot\<close> and \<^verbatim>\<open>CompositionalSlot\<close>
  override it.  The second function is the loop over \<^verbatim>\<open>self.children\<close>; an exception of
  a child leaves the loop, and falling off its end returns \<^verbatim>\<open>None\<close>.
\<close>

fun infer_from_compositional_request :: "externals \<Rightarrow> slot \<Rightarrow> token list \<Rightarrow> error + rvalue option"
  and children_compositional_request :: "externals \<Rightarrow> slot list \<Rightarrow> token list \<Rightarrow> error + rvalue option"
where
  "infer_from_compositional_request ext (ClassifierSlot b true None) text =
     Inl (NotImplementedError ''No model specified!'')"
| "infer_from_compositional_request ext (ClassifierSlot b true (Some predict)) text =
     (case predict text of
        Inl e \<Rightarrow> Inl e
      | Inr [] \<Rightarrow> Inl IndexError
      | Inr (label # _) \<Rightarrow> Inr (if label then Some (Str true) else None))"
| "infer_from_compositional_request ext (CompositionalSlot b children) text =
     children_compositional_request ext children text"
| "infer_from_compositional_request ext (DictionarySlot b) text = infer_method ext (DictionarySlot b) text"
| "infer_from_compositional_request ext (CurrencySlot b ss) text = infer_method ext (CurrencySlot b ss) text"
| "infer_from_compositional_request ext (TomitaSlot b) text = infer_method ext (TomitaSlot b) text"
| "infer_from_compositional_request ext (GeoSlot b) text = infer_method ext (GeoSlot b) text"
| "children_compositional_request ext [] text = Inr None"
| "children_compositional_request ext (s # ss) text =
     (case infer_from_compositional_request ext s text of
        Inl e \<Rightarrow> Inl e
      | Inr (Some rv) \<Rightarrow> Inr (Some rv)
      | Inr None \<Rightarrow> children_compositional_request ext ss text)"

text \<open>\<^verbatim>\<open>infer_from_single_slot\<close>: only \<^verbatim>\<open>CompositionalSlot\<close> overrides it.\<close>

fun infer_from_single_slot :: "externals \<Rightarrow> slot \<Rightarrow> token list \<Rightarrow> error + rvalue option"
  and children_single_slot :: "externals \<Rightarrow> slot list \<Rightarrow> token list \<Rightarrow> error + rvalue option"
where
  "infer_from_single_slot ext (CompositionalSlot b children) text =
     children_single_slot ext children text"
| "infer_from_single_slot ext (DictionarySlot b) text = infer_method ext (DictionarySlot b) text"
| "infer_from_single_slot ext (CurrencySlot b ss) text = infer_method ext (CurrencySlot b ss) text"
| "infer_from_single_slot ext (ClassifierSlot b true m) text = infer_method ext (ClassifierSlot b true m) text"
| "infer_from_single_slot ext (TomitaSlot b) text = infer_method ext (TomitaSlot b) text"
| "infer_from_single_slot ext (GeoSlot b) text = infer_method ext (GeoSlot b) text"
| "children_single_slot ext [] text = Inr None"
| "children_single_slot ext (s # ss) text =
     (case infer_from_single_slot ext s text of
        Inl e \<Rightarrow> Inl e
      | Inr (Some rv) \<Rightarrow> Inr (Some rv)
      | Inr None \<Rightarrow> children_single_slot ext ss text)"

section \<open>The schema loader\<close>

subsection \<open>Constructors\<close>

text \<open>\<^verbatim>\<open>DictionarySlot.__init__\<close>, which every subclass calls first.\<close>

definition DictionarySlot_init ::
  "string \<Rightarrow> string \<Rightarrow> py_dict \<Rightarrow> py_dict \<Rightarrow> string list \<Rightarrow> slot_base"
where
  "DictionarySlot_init sid ask generative_dict nongenerative_dict vorder =
     \<lparr>slot_id = sid, ask_sentence = ask, gen_dict = generative_dict,
      nongen_dict = nongenerative_dict, threshold = 84, values_order = vorder\<rparr>"

text \<open>\<^verbatim>\<open>slotmap = {s.id: s for s in prev_created_slots}\<close>: of two slots with one id the later
  one stays.\<close>

definition slotmap :: "slot list \<Rightarrow> string \<Rightarrow> slot option" where
  "slotmap prev_created_slots = map_of (rev (map (\<lambda>s. (slot_id (base s), s)) prev_created_slots))"

text \<open>\<^verbatim>\<open>[slotmap[slot_names] for slot_names in args]\<close>: a missing id raises \<^verbatim>\<open>KeyError\<close>.\<close>

fun lookup_children :: "slot list \<Rightarrow> string list \<Rightarrow> error + slot list" where
  "lookup_children prev_created_slots [] = Inr []"
| "lookup_children prev_created_slots (slot_names # args) =
     (case slotmap prev_created_slots slot_names of
        None \<Rightarrow> Inl (KeyError slot_names)
      | Some s \<Rightarrow>
          (case lookup_children prev_created_slots args of
             Inl e \<Rightarrow> Inl e
           | Inr ss \<Rightarrow> Inr (s # ss)))"

text \<open>
  \<^verbatim>\<open>getattr(sys.modules[__name__], slot_class)(...)\<close>: the class named by the header, called
  with the constructor arguments.  The six slot classes are resolved; any other name is
  answered with \<^verbatim>\<open>AttributeError\<close> (the module's imported names, which \<^verbatim>\<open>getattr\<close> would
  also find, are outside the model).  \<^verbatim>\<open>ClassifierSlot.__init__\<close> reads
  \<^verbatim>\<open>values_order[0]\<close>; \<^verbatim>\<open>CompositionalSlot.__init__\<close> looks its \<^verbatim>\<open>*args\<close> up among the
  slots built so far.
\<close>

definition SlotClass ::
  "string \<Rightarrow> string \<Rightarrow> string \<Rightarrow> py_dict \<Rightarrow> py_dict \<Rightarrow> string list \<Rightarrow> slot list \<Rightarrow> string list
     \<Rightarrow> error + slot"
where
  "SlotClass slot_class sid ask generative_dict nongenerative_dict vorder prev_created_slots args =
     (let b = DictionarySlot_init sid ask generative_dict nongenerative_dict vorder in
      if slot_class = ''DictionarySlot'' then Inr (DictionarySlot b)
      else if slot_class = ''CurrencySlot'' then Inr (CurrencySlot b [''rub'', ''eur'', ''usd''])
      else if slot_class = ''ClassifierSlot'' then
        (case vorder of [] \<Rightarrow> Inl IndexError | v # _ \<Rightarrow> Inr (ClassifierSlot b v None))
      else if slot_class = ''CompositionalSlot'' then
        (case lookup_children prev_created_slots args of
           Inl e \<Rightarrow> Inl e
         | Inr children \<Rightarrow> Inr (CompositionalSlot b children))
      else if slot_class = ''TomitaSlot'' then Inr (TomitaSlot b)
      else if slot_class = ''GeoSlot'' then Inr (GeoSlot b)
      else Inl (AttributeError slot_class))"

subsection \<open>Reading the rows\<close>

text \<open>
  The local variables of \<^verbatim>\<open>read_slots_from_tsv\<close>.  \<^verbatim>\<open>slot_class\<close>, \<^verbatim>\<open>info_question\<close> and
  \<^verbatim>\<open>normal_names_order\<close> are unset (or \<^verbatim>\<open>None\<close>) until the first header row and are read
  only after one, so they start here as empty.  The rows are what \<^verbatim>\<open>csv.reader\<close> yields;
  \<open>feed\<close> is \<^verbatim>\<open>pipeline.feed\<close>.
\<close>

record loader =
  slot_name :: "string option"
  slot_class :: string
  info_question :: string
  generative_slot_values :: py_dict
  nongenerative_slot_values :: py_dict
  normal_names_order :: "string list"
  result_slots :: "slot list"

definition loader_start :: loader where
  "loader_start =
     \<lparr>slot_name = None, slot_class = [], info_question = [], generative_slot_values = [],
      nongenerative_slot_values = [], normal_names_order = [], result_slots = []\<rparr>"

definition pipe :: "(string \<Rightarrow> token list) \<Rightarrow> string \<Rightarrow> string" where
  "pipe feed text = space_join (map token_text (feed text))"

text \<open>A synonym cell: \<^verbatim>\<open>', '\<close> becomes \<^verbatim>\<open>','\<close>, the curly quotes U+201C, U+201D and the
  straight double quote are deleted, then the cell is split at commas; an empty cell gives
  no synonym.\<close>

definition synonyms :: "string \<Rightarrow> string list" where
  "synonyms cell =
     (if cell \<noteq> [] then
        split_on CHR '','' (replace [CHR 0x22] [] (replace [CHR 0xE2, CHR 0x80, CHR 0x9D] []
          (replace [CHR 0xE2, CHR 0x80, CHR 0x9C] [] (replace '', '' '','' cell))))
      else [])"

text \<open>The header branch (\<^verbatim>\<open>slot_name is None\<close>).  The extra dot-separated parts of the
  header token are bound to \<^verbatim>\<open>args\<close> and not used again.\<close>

definition header_row :: "loader \<Rightarrow> string list \<Rightarrow> error + loader" where
  "header_row st row =
     (case row of
        [] \<Rightarrow> Inl IndexError
      | cell0 # cells \<Rightarrow>
          (case py_split cell0 of
             [] \<Rightarrow> Inl IndexError
           | tok # _ \<Rightarrow>
               (case split_on CHR ''.'' tok of
                  name # cls # args \<Rightarrow>
                    (case cells of
                       [] \<Rightarrow> Inl IndexError
                     | cell1 # _ \<Rightarrow>
                         Inr (st\<lparr>slot_name := Some name, slot_class := cls,
                                 info_question := strip cell1, normal_names_order := []\<rparr>))
                | _ \<Rightarrow> Inl ValueError)))"

text \<open>The cells of a value row of one, two or three columns.\<close>

definition row_cells :: "string list \<Rightarrow> error + string \<times> string \<times> string" where
  "row_cells row =
     (case row of
        [normal_name] \<Rightarrow> Inr (normal_name, [], [])
      | [normal_name, generative_syns] \<Rightarrow> Inr (normal_name, generative_syns, [])
      | [normal_name, generative_syns, nongenerative_syns] \<Rightarrow>
          Inr (normal_name, generative_syns, nongenerative_syns)
      | _ \<Rightarrow> Inl (Exception []))"

text \<open>The value-row branch (\<^verbatim>\<open>''.join(row)\<close> is not empty).  The \<^verbatim>\<open>assert\<close> is taken as
  executed.\<close>

definition value_row :: "(string \<Rightarrow> token list) \<Rightarrow> loader \<Rightarrow> string list \<Rightarrow> error + loader" where
  "value_row feed st row =
     (case row_cells row of
        Inl e \<Rightarrow> Inl e
      | Inr (name_cell, generative_cell, nongenerative_cell) \<Rightarrow>
          (let normal_name = pipe feed name_cell;
               generative_syns = synonyms generative_cell;
               nongenerative_syns = synonyms nongenerative_cell
           in if nongenerative_syns \<noteq> [] \<and> generative_syns \<noteq> []
                 \<and> set nongenerative_syns \<inter> set generative_syns \<noteq> {}
              then Inl AssertionError
              else Inr (st\<lparr>normal_names_order := normal_names_order st @ [normal_name],
                nongenerative_slot_values :=
                  fold (\<lambda>s d. dict_set d (pipe feed s) normal_name) nongenerative_syns
                    (nongenerative_slot_values st),
                generative_slot_values :=
                  fold (\<lambda>s d. dict_set d (pipe feed s) normal_name) generative_syns
                    (dict_set (generative_slot_values st) normal_name normal_name)\<rparr>)))"

text \<open>The constructor call and \<^verbatim>\<open>result_slots.append(slot)\<close>, as written both in the
  blank-row branch and after the loop: no \<^verbatim>\<open>*args\<close> is passed.\<close>

definition append_slot :: "loader \<Rightarrow> string \<Rightarrow> error + loader" where
  "append_slot st name =
     (case SlotClass (slot_class st) name (info_question st) (generative_slot_values st)
             (nongenerative_slot_values st) (normal_names_order st) (result_slots st) [] of
        Inl e \<Rightarrow> Inl e
      | Inr slot \<Rightarrow> Inr (st\<lparr>result_slots := result_slots st @ [slot]\<rparr>))"

text \<open>One iteration of \<^verbatim>\<open>for row in csv_rows\<close>.\<close>

definition tsv_row :: "(string \<Rightarrow> token list) \<Rightarrow> loader \<Rightarrow> string list \<Rightarrow> error + loader" where
  "tsv_row feed st row =
     (case slot_name st of
        None \<Rightarrow> header_row st row
      | Some name \<Rightarrow>
          if concat row \<noteq> [] then value_row feed st row
          else (case append_slot st name of
                  Inl e \<Rightarrow> Inl e
                | Inr st' \<Rightarrow>
                    Inr (st'\<lparr>slot_name := None, generative_slot_values := [],
                             nongenerative_slot_values := []\<rparr>)))"

fun tsv_rows :: "(string \<Rightarrow> token list) \<Rightarrow> loader \<Rightarrow> string list list \<Rightarrow> error + loader" where
  "tsv_rows feed st [] = Inr st"
| "tsv_rows feed st (row # rows) =
     (case tsv_row feed st row of
        Inl e \<Rightarrow> Inl e
      | Inr st' \<Rightarrow> tsv_rows feed st' rows)"

text \<open>\<^verbatim>\<open>read_slots_from_tsv\<close>: the loop, then \<^verbatim>\<open>if slot_name:\<close>, which is false for
  \<^verbatim>\<open>None\<close> and for the empty string.\<close>

definition read_slots_from_tsv :: "(string \<Rightarrow> token list) \<Rightarrow> string list list \<Rightarrow> error + slot list" where
  "read_slots_from_tsv feed rows =
     (case tsv_rows feed loader_start rows of
        Inl e \<Rightarrow> Inl e
      | Inr st \<Rightarrow>
          (case slot_name st of
             None \<Rightarrow> Inr (result_slots st)
           | Some name \<Rightarrow>
               if name \<noteq> [] then
                 (case append_slot st name of
                    Inl e \<Rightarrow> Inl e
                  | Inr st' \<Rightarrow> Inr (result_slots st'))
               else Inr (result_slots st)))"

subsection \<open>Loading with trained models\<close>

text \<open>
  The artifact store: a path that does not exist is \<open>None\<close>; an existing file either
  unpickles to a model or makes \<^verbatim>\<open>joblib.load\<close> raise.  \<open>path_join\<close> is
  \<^verbatim>\<open>os.path.join\<close> of two components on POSIX.
\<close>

type_synonym filesystem = "string \<Rightarrow> (error + model) option"

definition path_join :: "string \<Rightarrow> string \<Rightarrow> string" where
  "path_join a b =
     (if take 1 b = ''/'' then b
      else if a = [] \<or> drop (length a - 1) a = ''/'' then a @ b
      else a @ ''/'' @ b)"

text \<open>\<^verbatim>\<open>ClassifierSlot.load_model\<close>; the other classes have no such method.\<close>

fun load_model :: "filesystem \<Rightarrow> slot \<Rightarrow> string \<Rightarrow> error + slot" where
  "load_model fs (ClassifierSlot b true m) model_path =
     (case fs model_path of
        None \<Rightarrow> Inl (Exception (''Model path: '' @ [CHR 0x27] @ model_path @ [CHR 0x27] @ '' doesnt exist''))
      | Some (Inl e) \<Rightarrow> Inl e
      | Some (Inr mdl) \<Rightarrow> Inr (ClassifierSlot b true (Some mdl)))"
| "load_model fs s model_path = Inl (AttributeError ''load_model'')"

fun isinstance_ClassifierSlot :: "slot \<Rightarrow> bool" where
  "isinstance_ClassifierSlot (ClassifierSlot b true m) = True"
| "isinstance_ClassifierSlot s = False"

text \<open>The \<^verbatim>\<open>for s in slots_array\<close> loop of \<^verbatim>\<open>read_slots_serialized\<close>.\<close>

fun load_models :: "filesystem \<Rightarrow> string \<Rightarrow> slot list \<Rightarrow> error + slot list" where
  "load_models fs folder [] = Inr []"
| "load_models fs folder (s # ss) =
     (let name = path_join folder (slot_id (base s) @ ''.model'') in
      if isinstance_ClassifierSlot s then
        (if fs name = None then Inl (Exception (name @ '' does not exist''))
         else (case load_model fs s name of
                 Inl e \<Rightarrow> Inl e
               | Inr s' \<Rightarrow>
                   (case load_models fs folder ss of
                      Inl e \<Rightarrow> Inl e
                    | Inr ss' \<Rightarrow> Inr (s' # ss'))))
      else (case load_models fs folder ss of
              Inl e \<Rightarrow> Inl e
            | Inr ss' \<Rightarrow> Inr (s # ss')))"

definition read_slots_serialized ::
  "filesystem \<Rightarrow> string \<Rightarrow> (string \<Rightarrow> token list) \<Rightarrow> string list list \<Rightarrow> error + slot list"
where
  "read_slots_serialized fs folder feed rows =
     (case read_slots_from_tsv feed rows of
        Inl e \<Rightarrow> Inl e
      | Inr slots_array \<Rightarrow> load_models fs folder slots_array)"

section \<open>The resolution contract, as the specification words it\<close>




section \<open>Instances of the parameters for the worked examples\<close>

text \<open>
  The examples need a tokenizer and a scorer.  \<open>simple_feed\<close> cuts at whitespace.
  \<open>containment_ratio\<close> agrees with \<^verbatim>\<open>fuzz.partial_ratio\<close> on the pairs the examples score:
  the library returns 0 when one of two different strings is empty or when the two strings
  have no character in common (it compares case-sensitively), and 100 when the shorter
  string occurs in the longer one.  On other pairs the library returns a value in between;
  no example below scores such a pair.  No general theorem depends on these instances.
\<close>

definition simple_feed :: "string \<Rightarrow> token list" where
  "simple_feed s = map (\<lambda>w. \<lparr>token_text = w\<rparr>) (py_split s)"

fun occurs_in :: "string \<Rightarrow> string \<Rightarrow> bool" where
  "occurs_in sub [] = (sub = [])"
| "occurs_in sub (c # cs) = (take (length sub) (c # cs) = sub \<or> occurs_in sub cs)"

definition containment_ratio :: "string \<Rightarrow> string \<Rightarrow> int" where
  "containment_ratio s1 s2 =
     (if s1 = [] \<or> s2 = [] then 0
      else if length s1 \<le> length s2 then (if occurs_in s1 s2 then 100 else 0)
      else (if occurs_in s2 s1 then 100 else 0))"

definition example_ext :: externals where
  "example_ext = \<lparr>fuzz_partial_ratio = containment_ratio, tomita_get_json = (\<lambda>probe. Inr JNull)\<rparr>"

definition no_files :: filesystem where
  "no_files = (\<lambda>path. None)"

section \<open>Invariants of the loader\<close>

text \<open>\<^verbatim>\<open>d.values()\<close>.\<close>

definition dict_values :: "py_dict \<Rightarrow> string list" where
  "dict_values d = map snd d"

text \<open>A slot that is not a compositional slot with children.\<close>

fun no_children :: "slot \<Rightarrow> bool" where
  "no_children (CompositionalSlot b children) = (children = [])"
| "no_children s = True"

text \<open>What the loader establishes for the attributes of each slot it builds: the threshold
  is 84, every canonical value the slot was built with is a key of the generative dict, and
  both dicts store canonical values only.\<close>

definition canonical_base :: "slot_base \<Rightarrow> bool" where
  "canonical_base b \<longleftrightarrow>
     threshold b = 84
     \<and> set (values_order b) \<subseteq> set (dict_keys (gen_dict b))
     \<and> set (dict_values (gen_dict b)) \<subseteq> set (values_order b)
     \<and> set (dict_values (nongen_dict b)) \<subseteq> set (values_order b)"

text \<open>The invariant of the row loop: between blocks both dicts are empty; inside a block
  the canonical names read so far are keys of the generative dict and both dicts store only
  such names; the slots built so far satisfy the above.\<close>

definition loader_inv :: "loader \<Rightarrow> bool" where
  "loader_inv st \<longleftrightarrow>
     (slot_name st = None \<longrightarrow> generative_slot_values st = [] \<and> nongenerative_slot_values st = [])
     \<and> (slot_name st \<noteq> None \<longrightarrow>
          set (normal_names_order st) \<subseteq> set (dict_keys (generative_slot_values st)))
     \<and> set (dict_values (generative_slot_values st)) \<subseteq> set (normal_names_order st)
     \<and> set (dict_values (nongenerative_slot_values st)) \<subseteq> set (normal_names_order st)
     \<and> (\<forall>s\<in>set (result_slots st). canonical_base (base s) \<and> no_children s)"

section \<open>Facts about the scan of \<^verbatim>\<open>_infer\<close>\<close>

lemmas loader_defs = read_slots_from_tsv_def tsv_row_def header_row_def value_row_def row_cells_def
  append_slot_def SlotClass_def DictionarySlot_init_def loader_start_def pipe_def synonyms_def
  py_split_def is_space_def strip_def simple_feed_def Let_def

lemmas infer_defs = infer_def DictionarySlot_init_def dict_keys_def containment_ratio_def
  normal_value_def dict_get_def example_ext_def Let_def

lemma best_scan_keep:
  "\<forall>k\<in>set ks. ratio k p \<le> bs \<Longrightarrow> best_scan ratio p ks (bs, bm) = (bs, bm)"
  by (induction ks) (auto simp: Let_def)

lemma best_scan_improve:
  "\<exists>k\<in>set ks. ratio k p > bs \<Longrightarrow>
   best_scan ratio p ks (bs, bm) =
     (Max (set (map (\<lambda>k. ratio k p) ks)),
      List.find (\<lambda>k. ratio k p = Max (set (map (\<lambda>k'. ratio k' p) ks))) ks)"
proof (induction ks arbitrary: bs bm)
  case Nil
  then show ?case by simp
next
  case (Cons k ks)
  let ?f = "\<lambda>k. ratio k p"
  show ?case
  proof (cases "\<exists>k'\<in>set ks. ?f k' > max bs (?f k)")
    case True
    then have ne: "ks \<noteq> []" by auto
    from True obtain k' where k': "k' \<in> set ks" "?f k' > max bs (?f k)" by blast
    have "?f k' \<le> Max (set (map ?f ks))" using k' by simp
    then have big: "Max (set (map ?f ks)) > ?f k" using k' by linarith
    have mx: "Max (set (map ?f (k # ks))) = Max (set (map ?f ks))"
      using big ne by (simp add: max_def)
    have step: "best_scan ratio p (k # ks) (bs, bm) = best_scan ratio p ks (max bs (?f k), if ?f k > bs then Some k else bm)"
      by (simp add: Let_def max_def)
    have "best_scan ratio p ks (max bs (?f k), if ?f k > bs then Some k else bm) =
       (Max (set (map ?f ks)), List.find (\<lambda>k. ?f k = Max (set (map ?f ks))) ks)"
      using Cons.IH True by blast
    moreover have "List.find (\<lambda>x. ?f x = Max (set (map ?f (k # ks)))) (k # ks) = List.find (\<lambda>x. ?f x = Max (set (map ?f ks))) ks"
      using big by (simp add: mx del: set_map list.map)
    ultimately show ?thesis using step mx by (simp del: best_scan.simps set_map list.map)
  next
    case False
    then have le: "\<And>k'. k' \<in> set ks \<Longrightarrow> ?f k' \<le> max bs (?f k)" by force
    from Cons.prems False have kbig: "?f k > bs" by (auto simp: max_def split: if_splits)
    then have le': "\<And>k'. k' \<in> set ks \<Longrightarrow> ?f k' \<le> ?f k" using le by (force simp: max_def)
    have step: "best_scan ratio p (k # ks) (bs, bm) = best_scan ratio p ks (?f k, Some k)"
      using kbig by (simp add: Let_def)
    have keep: "best_scan ratio p ks (?f k, Some k) = (?f k, Some k)"
      using le' by (intro best_scan_keep) blast
    have mx: "Max (set (map ?f (k # ks))) = ?f k"
      using le' by (auto intro!: Max_eqI)
    show ?thesis using step keep mx by (simp del: best_scan.simps set_map list.map)
  qed
qed


lemma find_max_attained:
  "ks \<noteq> [] \<Longrightarrow> \<exists>k. List.find (\<lambda>k. f k = Max (set (map f ks))) ks = Some k \<and> k \<in> set ks \<and> f k = Max (set (map f ks))"
proof -
  assume ne: "ks \<noteq> []"
  then have "Max (set (map f ks)) \<in> set (map f ks)" by (intro Max_in) auto
  then obtain k where "k \<in> set ks" "f k = Max (set (map f ks))" by auto
  then have "List.find (\<lambda>k. f k = Max (set (map f ks))) ks \<noteq> None"
    by (auto simp: find_None_iff)
  then obtain k' where k': "List.find (\<lambda>k. f k = Max (set (map f ks))) ks = Some k'" by auto
  then have "k' \<in> set ks \<and> f k' = Max (set (map f ks))"
    by (auto simp: find_Some_iff)
  with k' show ?thesis by blast
qed


lemma best_scan_match_is_key:
  assumes r: "best_scan ratio p ks (bs, None) = (bs', bm')" and lt: "bs < bs'"
  shows "\<exists>k\<in>set ks. bm' = Some k"
proof -
  define M where "M = Max (set (map (\<lambda>k. ratio k p) ks))"
  define F where "F = List.find (\<lambda>k. ratio k p = M) ks"
  have ex: "\<exists>k\<in>set ks. ratio k p > bs"
  proof (rule ccontr)
    assume "\<not> ?thesis"
    then have "\<forall>k\<in>set ks. ratio k p \<le> bs" by force
    with best_scan_keep[of ks ratio p bs None] r lt show False by simp
  qed
  then have ne: "ks \<noteq> []" by auto
  have "best_scan ratio p ks (bs, None) = (M, F)"
    unfolding M_def F_def using ex by (rule best_scan_improve)
  with r have bm: "bm' = F" by simp
  from find_max_attained[OF ne, of "\<lambda>k. ratio k p"] obtain k where "F = Some k" "k \<in> set ks"
    unfolding M_def F_def by blast
  with bm show ?thesis by simp
qed

lemma infer_returns_stored_value:
  assumes "0 < threshold b" "infer ratio b text = Some v"
  shows "v \<in> set (dict_values (gen_dict b)) \<union> set (dict_values (nongen_dict b))"
proof -
  obtain bs bm where scan: "best_scan ratio (space_join (map token_text text))
      (dict_keys (gen_dict b) @ dict_keys (nongen_dict b)) (0, None) = (bs, bm)"
    by (cases "best_scan ratio (space_join (map token_text text))
      (dict_keys (gen_dict b) @ dict_keys (nongen_dict b)) (0, None)") auto
  from assms(2) scan have ge: "bs \<ge> threshold b" and v: "v = normal_value b bm"
    by (auto simp: infer_def Let_def split: if_splits)
  from ge assms(1) have "0 < bs" by simp
  from best_scan_match_is_key[OF scan this] obtain k where
    k: "k \<in> set (dict_keys (gen_dict b) @ dict_keys (nongen_dict b))" "bm = Some k" by blast
  then have some: "map_of (gen_dict b) k \<noteq> None \<or> map_of (nongen_dict b) k \<noteq> None"
    by (auto simp: dict_keys_def map_of_eq_None_iff)
  show ?thesis
  proof (cases "map_of (gen_dict b) k")
    case (Some w)
    then have "(k, w) \<in> set (gen_dict b)" by (rule map_of_SomeD)
    then have "w \<in> set (dict_values (gen_dict b))" by (force simp: dict_values_def)
    moreover have "v = w" unfolding v k(2) using Some by (simp add: normal_value_def dict_get_def)
    ultimately show ?thesis by simp
  next
    case None
    with some obtain w where w: "map_of (nongen_dict b) k = Some w" by auto
    then have "(k, w) \<in> set (nongen_dict b)" by (rule map_of_SomeD)
    then have "w \<in> set (dict_values (nongen_dict b))" by (force simp: dict_values_def)
    moreover have "v = w" unfolding v k(2) using None w by (simp add: normal_value_def dict_get_def)
    ultimately show ?thesis by simp
  qed
qed

lemma find_first_at:
  "k \<in> set ks \<Longrightarrow> P k \<Longrightarrow> \<forall>k'\<in>set (takeWhile (\<lambda>x. x \<noteq> k) ks). \<not> P k' \<Longrightarrow> List.find P ks = Some k"
  by (induction ks) auto

section \<open>Facts about the loader\<close>

lemma dict_keys_dict_set_list:
  "dict_keys (dict_set d k v) = (if k \<in> set (dict_keys d) then dict_keys d else dict_keys d @ [k])"
  by (induction d) (force simp: dict_keys_def)+

lemma dict_keys_dict_set: "set (dict_keys (dict_set d k v)) = insert k (set (dict_keys d))"
  by (auto simp: dict_keys_dict_set_list)

lemma dict_values_dict_set: "set (dict_values (dict_set d k v)) \<subseteq> insert v (set (dict_values d))"
  by (induction d) (force simp: dict_values_def split: if_splits)+

lemma dict_keys_fold_set:
  "set (dict_keys d) \<subseteq> set (dict_keys (fold (\<lambda>s d. dict_set d (f s) v) xs d))"
proof (induction xs arbitrary: d)
  case Nil
  then show ?case by simp
next
  case (Cons x xs)
  have "set (dict_keys d) \<subseteq> set (dict_keys (dict_set d (f x) v))"
    by (auto simp: dict_keys_dict_set)
  also have "\<dots> \<subseteq> set (dict_keys (fold (\<lambda>s d. dict_set d (f s) v) xs (dict_set d (f x) v)))"
    by (rule Cons.IH)
  finally show ?case by simp
qed

lemma dict_values_fold_set:
  "set (dict_values (fold (\<lambda>s d. dict_set d (f s) v) xs d)) \<subseteq> insert v (set (dict_values d))"
proof (induction xs arbitrary: d)
  case Nil
  then show ?case by auto
next
  case (Cons x xs)
  have "set (dict_values (fold (\<lambda>s d. dict_set d (f s) v) xs (dict_set d (f x) v)))
          \<subseteq> insert v (set (dict_values (dict_set d (f x) v)))"
    by (rule Cons.IH)
  also have "\<dots> \<subseteq> insert v (set (dict_values d))"
    using dict_values_dict_set[of d "f x" v] by auto
  finally show ?case by simp
qed

lemma SlotClass_base:
  "SlotClass cls name q g ng ord prev [] = Inr s \<Longrightarrow>
   base s = DictionarySlot_init name q g ng ord \<and> no_children s"
  by (auto simp: SlotClass_def Let_def split: if_splits list.splits)

lemma append_slot_inv:
  assumes "loader_inv st" "slot_name st = Some name" "append_slot st name = Inr st'"
  shows "\<forall>s\<in>set (result_slots st'). canonical_base (base s) \<and> no_children s"
    and "\<exists>s. st' = st\<lparr>result_slots := result_slots st @ [s]\<rparr>"
proof -
  from assms(3) obtain s where s: "SlotClass (slot_class st) name (info_question st)
      (generative_slot_values st) (nongenerative_slot_values st) (normal_names_order st)
      (result_slots st) [] = Inr s" and st': "st' = st\<lparr>result_slots := result_slots st @ [s]\<rparr>"
    by (auto simp: append_slot_def split: sum.splits)
  from SlotClass_base[OF s] have b: "base s = DictionarySlot_init name (info_question st)
      (generative_slot_values st) (nongenerative_slot_values st) (normal_names_order st)"
    and nc: "no_children s" by auto
  have "canonical_base (base s)"
    using assms(1,2) unfolding b by (simp add: canonical_base_def loader_inv_def DictionarySlot_init_def)
  with nc assms(1) show "\<forall>s\<in>set (result_slots st'). canonical_base (base s) \<and> no_children s"
    unfolding st' by (auto simp: loader_inv_def)
  from st' show "\<exists>s. st' = st\<lparr>result_slots := result_slots st @ [s]\<rparr>" by blast
qed

lemma header_row_inv:
  assumes "loader_inv st" "slot_name st = None" "header_row st row = Inr st'"
  shows "loader_inv st'"
proof -
  from assms(3) obtain name cls q where
    "st' = st\<lparr>slot_name := Some name, slot_class := cls, info_question := q, normal_names_order := []\<rparr>"
    by (auto simp: header_row_def split: list.splits)
  with assms(1,2) show ?thesis by (simp add: loader_inv_def dict_keys_def dict_values_def)
qed

lemma value_row_inv:
  assumes "loader_inv st" "slot_name st = Some name" "value_row feed st row = Inr st'"
  shows "loader_inv st'"
proof -
  from assms(3) obtain a g ng where cells: "row_cells row = Inr (a, g, ng)"
    by (auto simp: value_row_def split: sum.splits)
  define n where "n = pipe feed a"
  define gs where "gs = synonyms g"
  define ngs where "ngs = synonyms ng"
  from assms(3) cells have "st' = st\<lparr>normal_names_order := normal_names_order st @ [pipe feed a],
      nongenerative_slot_values := fold (\<lambda>s d. dict_set d (pipe feed s) (pipe feed a)) (synonyms ng)
         (nongenerative_slot_values st),
      generative_slot_values := fold (\<lambda>s d. dict_set d (pipe feed s) (pipe feed a)) (synonyms g)
         (dict_set (generative_slot_values st) (pipe feed a) (pipe feed a))\<rparr>"
    by (auto simp: value_row_def Let_def split: if_splits)
  then have st': "st' = st\<lparr>normal_names_order := normal_names_order st @ [n],
      nongenerative_slot_values := fold (\<lambda>s d. dict_set d (pipe feed s) n) ngs (nongenerative_slot_values st),
      generative_slot_values := fold (\<lambda>s d. dict_set d (pipe feed s) n) gs
         (dict_set (generative_slot_values st) n n)\<rparr>"
    by (simp only: n_def gs_def ngs_def)
  let ?g = "generative_slot_values st" and ?ng = "nongenerative_slot_values st"
  let ?ord = "normal_names_order st"
  from assms(1,2) have ord: "set ?ord \<subseteq> set (dict_keys ?g)"
    and vg: "set (dict_values ?g) \<subseteq> set ?ord" and vng: "set (dict_values ?ng) \<subseteq> set ?ord"
    and rs: "\<forall>s\<in>set (result_slots st). canonical_base (base s) \<and> no_children s"
    by (auto simp: loader_inv_def)
  have k: "set (?ord @ [n]) \<subseteq> set (dict_keys (fold (\<lambda>s d. dict_set d (pipe feed s) n) gs (dict_set ?g n n)))"
    using dict_keys_fold_set[of "dict_set ?g n n" "pipe feed" n gs] ord
    by (auto simp: dict_keys_dict_set)
  have v1: "set (dict_values (fold (\<lambda>s d. dict_set d (pipe feed s) n) gs (dict_set ?g n n))) \<subseteq> set (?ord @ [n])"
    using dict_values_fold_set[of "pipe feed" n gs "dict_set ?g n n"] dict_values_dict_set[of ?g n n] vg
    by auto
  have v2: "set (dict_values (fold (\<lambda>s d. dict_set d (pipe feed s) n) ngs ?ng)) \<subseteq> set (?ord @ [n])"
    using dict_values_fold_set[of "pipe feed" n ngs ?ng] vng by auto
  show ?thesis
    unfolding st' loader_inv_def using k v1 v2 rs assms(2) by simp
qed

lemma tsv_row_inv:
  assumes "loader_inv st" "tsv_row feed st row = Inr st'"
  shows "loader_inv st'"
proof (cases "slot_name st")
  case None
  with assms show ?thesis by (auto simp: tsv_row_def intro: header_row_inv)
next
  case (Some name)
  show ?thesis
  proof (cases "concat row \<noteq> []")
    case True
    with Some assms show ?thesis by (auto simp: tsv_row_def intro: value_row_inv)
  next
    case False
    with Some assms(2) obtain st1 where a: "append_slot st name = Inr st1"
      and st': "st' = st1\<lparr>slot_name := None, generative_slot_values := [], nongenerative_slot_values := []\<rparr>"
      by (auto simp: tsv_row_def split: sum.splits)
    from append_slot_inv[OF assms(1) Some a] assms(1) show ?thesis
      unfolding st' by (auto simp: loader_inv_def dict_values_def)
  qed
qed

lemma tsv_rows_inv:
  "loader_inv st \<Longrightarrow> tsv_rows feed st rows = Inr st' \<Longrightarrow> loader_inv st'"
  by (induction rows arbitrary: st) (auto split: sum.splits dest: tsv_row_inv)

lemma loader_start_inv: "loader_inv loader_start"
  by (simp add: loader_inv_def loader_start_def dict_values_def dict_keys_def)

lemma read_slots_from_tsv_inv:
  assumes "read_slots_from_tsv feed rows = Inr slots_array" "s \<in> set slots_array"
  shows "canonical_base (base s) \<and> no_children s"
proof -
  from assms(1) obtain st where st: "tsv_rows feed loader_start rows = Inr st"
    by (auto simp: read_slots_from_tsv_def split: sum.splits)
  have inv: "loader_inv st" using loader_start_inv st by (rule tsv_rows_inv)
  show ?thesis
  proof (cases "\<exists>name. slot_name st = Some name \<and> name \<noteq> []")
    case True
    then obtain name where n: "slot_name st = Some name" "name \<noteq> []" by blast
    with assms(1) st obtain st1 where a: "append_slot st name = Inr st1" and r: "slots_array = result_slots st1"
      by (auto simp: read_slots_from_tsv_def split: sum.splits)
    from append_slot_inv(1)[OF inv n(1) a] r assms(2) show ?thesis by blast
  next
    case False
    with assms(1) st have "slots_array = result_slots st"
      by (auto simp: read_slots_from_tsv_def split: option.splits if_splits)
    with inv assms(2) show ?thesis by (auto simp: loader_inv_def)
  qed
qed

lemma tsv_rows_append:
  "tsv_rows feed st (xs @ ys) =
     (case tsv_rows feed st xs of Inl e \<Rightarrow> Inl e | Inr st' \<Rightarrow> tsv_rows feed st' ys)"
  by (induction xs arbitrary: st) (auto split: sum.splits)

lemma trailing_block_flushed:
  assumes "tsv_rows feed loader_start rows = Inr st" "slot_name st = Some name" "name \<noteq> []"
    and "concat blank = []"
  shows "read_slots_from_tsv feed rows = read_slots_from_tsv feed (rows @ [blank])"
  using assms
  by (auto simp: read_slots_from_tsv_def tsv_rows_append tsv_row_def split: sum.splits)

lemma synonyms_nonempty: "synonyms cell \<noteq> [] \<Longrightarrow> cell \<noteq> []"
  by (auto simp: synonyms_def)

text \<open>No compositional slot that comes out of the loader has a child.\<close>

lemma loaded_compositional_has_no_children:
  "read_slots_from_tsv feed rows = Inr slots_array \<Longrightarrow>
   CompositionalSlot b children \<in> set slots_array \<Longrightarrow> children = []"
  using read_slots_from_tsv_inv[of feed rows slots_array "CompositionalSlot b children"] by simp

section \<open>Facts about the compositional loop and the model loader\<close>

lemma children_compositional_request_find:
  "children_compositional_request ext children text =
     (case List.find (\<lambda>r. r \<noteq> Inr None) (map (\<lambda>s. infer_from_compositional_request ext s text) children) of
        None \<Rightarrow> Inr None | Some r \<Rightarrow> r)"
  by (induction children) (auto split: sum.splits option.splits)

lemma children_single_slot_find:
  "children_single_slot ext children text =
     (case List.find (\<lambda>r. r \<noteq> Inr None) (map (\<lambda>s. infer_from_single_slot ext s text) children) of
        None \<Rightarrow> Inr None | Some r \<Rightarrow> r)"
  by (induction children) (auto split: sum.splits option.splits)

lemma first_outcome_null_iff:
  "(case List.find (\<lambda>r. r \<noteq> Inr None) (map f xs) of None \<Rightarrow> Inr None | Some r \<Rightarrow> r) = Inr None
    \<longleftrightarrow> (\<forall>x\<in>set xs. f x = Inr None)"
  by (induction xs) auto

lemma first_outcome_at:
  "i < length xs \<Longrightarrow> \<forall>j<i. f (xs ! j) = Inr None \<Longrightarrow> f (xs ! i) = Inr (Some v) \<Longrightarrow>
   (case List.find (\<lambda>r. r \<noteq> Inr None) (map f xs) of None \<Rightarrow> Inr None | Some r \<Rightarrow> r) = Inr (Some v)"
proof (induction xs arbitrary: i)
  case Nil
  then show ?case by simp
next
  case (Cons x xs)
  show ?case
  proof (cases i)
    case 0
    with Cons.prems show ?thesis by simp
  next
    case (Suc n)
    with Cons.prems have x: "f x = Inr None" by auto
    from Suc Cons.prems have "n < length xs" "\<forall>j<n. f (xs ! j) = Inr None" "f (xs ! n) = Inr (Some v)"
      by auto
    from Cons.IH[OF this] x show ?thesis by simp
  qed
qed

lemma load_models_missing_artifact:
  "s \<in> set slots_array \<Longrightarrow> isinstance_ClassifierSlot s \<Longrightarrow>
   fs (path_join folder (slot_id (base s) @ ''.model'')) = None \<Longrightarrow>
   \<exists>e. load_models fs folder slots_array = Inl e"
proof (induction slots_array)
  case Nil
  then show ?case by simp
next
  case (Cons x xs)
  show ?case
  proof (cases "x = s")
    case True
    with Cons.prems show ?thesis by (simp add: Let_def)
  next
    case False
    with Cons.prems Cons.IH obtain e where "load_models fs folder xs = Inl e" by auto
    then show ?thesis by (auto simp: Let_def split: sum.splits)
  qed
qed

section \<open>Classifier slots without a model\<close>

text \<open>
  Claim C1, as stated, fails: a classifier slot with no model attached answers the
  single-slot entry point without an error.  \<^verbatim>\<open>ClassifierSlot\<close> overrides only
  \<^verbatim>\<open>infer_from_compositional_request\<close>; \<^verbatim>\<open>infer_from_single_slot\<close> is the inherited
  dictionary routine, which never looks at the model.  Here the slot returns null on the
  empty token sequence and its canonical value on a matching one.
\<close>

theorem classifier_single_slot_counterexample:
  "infer_from_single_slot example_ext
     (ClassifierSlot (DictionarySlot_init ''rep'' ''Again?'' [(''yes'', ''yes'')] [] [''yes''])
        ''yes'' None) [] = Inr None
   \<and> infer_from_single_slot example_ext
     (ClassifierSlot (DictionarySlot_init ''rep'' ''Again?'' [(''yes'', ''yes'')] [] [''yes''])
        ''yes'' None) [\<lparr>token_text = ''yes''\<rparr>] = Inr (Some (Str ''yes''))"
  by (simp add: infer_defs)

text \<open>
  Claim C1, amended: for every classifier slot with no model attached and every token
  sequence, the compositional-request entry point fails with the explicit error
  \<^verbatim>\<open>NotImplementedError("No model specified!")\<close>; the single-slot entry point does not
  consult the model and returns what base dictionary resolution returns.
\<close>

theorem classifier_without_model:
  "infer_from_compositional_request ext (ClassifierSlot b true None) text =
     Inl (NotImplementedError ''No model specified!'')
   \<and> infer_from_single_slot ext (ClassifierSlot b true None) text =
     Inr (map_option Str (infer (fuzz_partial_ratio ext) b text))"
  by simp

section \<open>Children of a compositional slot at load time\<close>

text \<open>
  Claim C2 at a failing input: the header names the child \<open>card\<close>, no slot \<open>card\<close> was
  built before, and loading succeeds with a compositional slot that has no children.  The
  loader splits the extra header parts off into \<^verbatim>\<open>args\<close> and then calls the constructor
  without them, so the lookup that raises \<^verbatim>\<open>KeyError\<close> for an unknown child, shown in the
  second conjunct on the constructor itself, is never reached from the loader.
\<close>

theorem compositional_missing_child_loads:
  "read_slots_from_tsv simple_feed [[''pay.CompositionalSlot.card'', ''How will you pay?''], []] =
     Inr [CompositionalSlot
            \<lparr>slot_id = ''pay'', ask_sentence = ''How will you pay?'', gen_dict = [],
             nongen_dict = [], threshold = 84, values_order = []\<rparr> []]
   \<and> SlotClass ''CompositionalSlot'' ''pay'' ''How will you pay?'' [] [] [] [] [''card''] =
     Inl (KeyError ''card'')"
  by (simp add: loader_defs slotmap_def)

section \<open>Dictionary resolution against its specification\<close>



section \<open>Surface forms in both dictionaries\<close>

text \<open>
  Claim C4, as stated, fails: a successful load can produce a slot whose two dicts share a
  key.  The \<^verbatim>\<open>assert\<close> compares the two synonym cells of one row only.  Here \<open>dollars\<close> is a
  generative synonym in one row and a nongenerative synonym in the next.
\<close>

theorem shared_key_loads_counterexample:
  "read_slots_from_tsv simple_feed
     [[''cur.CurrencySlot'', ''Which currency?''], [''usd'', ''dollars''], [''eur'', [], ''dollars'']] =
     Inr [CurrencySlot
            \<lparr>slot_id = ''cur'', ask_sentence = ''Which currency?'',
             gen_dict = [(''usd'', ''usd''), (''dollars'', ''usd''), (''eur'', ''eur'')],
             nongen_dict = [(''dollars'', ''eur'')], threshold = 84,
             values_order = [''usd'', ''eur'']\<rparr>
            [''rub'', ''eur'', ''usd'']]
   \<and> ''dollars'' \<in> set (dict_keys [(''usd'', ''usd''), (''dollars'', ''usd''), (''eur'', ''eur'')])
   \<and> ''dollars'' \<in> set (dict_keys [(''dollars'', ''eur'')])"
  by (simp add: loader_defs dict_keys_def)

text \<open>
  Claim C4, amended: loading fails with \<^verbatim>\<open>AssertionError\<close> at a three-column value row
  whose generative and nongenerative synonym cells, split into raw synonyms, have a
  synonym in common, whatever rows follow.  (The row must be reached as a value row: the
  rows before it load without error and leave a block open.)
\<close>

theorem overlapping_row_rejected:
  assumes "tsv_rows feed loader_start before = Inr st" and "slot_name st \<noteq> None"
    and "set (synonyms nongenerative_cell) \<inter> set (synonyms generative_cell) \<noteq> {}"
  shows "read_slots_from_tsv feed (before @ [normal_name, generative_cell, nongenerative_cell] # after)
           = Inl AssertionError"
proof -
  from assms(3) have ne: "synonyms nongenerative_cell \<noteq> []" "synonyms generative_cell \<noteq> []" by auto
  then have "generative_cell \<noteq> []" by (auto dest: synonyms_nonempty)
  then have "concat [normal_name, generative_cell, nongenerative_cell] \<noteq> []" by simp
  moreover have "value_row feed st [normal_name, generative_cell, nongenerative_cell] = Inl AssertionError"
    using ne assms(3) by (simp add: value_row_def row_cells_def Let_def)
  ultimately have "tsv_row feed st [normal_name, generative_cell, nongenerative_cell] = Inl AssertionError"
    using assms(2) by (auto simp: tsv_row_def simp del: concat.simps)
  then show ?thesis
    using assms(1) by (simp add: read_slots_from_tsv_def tsv_rows_append)
qed

theorem overlapping_row_rejected_witness:
  "tsv_rows simple_feed loader_start [[''cur.CurrencySlot'', ''Which currency?'']] =
     Inr \<lparr>slot_name = Some ''cur'', slot_class = ''CurrencySlot'',
          info_question = ''Which currency?'', generative_slot_values = [],
          nongenerative_slot_values = [], normal_names_order = [], result_slots = []\<rparr>
   \<and> set (synonyms ''x'') \<inter> set (synonyms ''x'') \<noteq> {}
   \<and> read_slots_from_tsv simple_feed
        ([[''cur.CurrencySlot'', ''Which currency?'']] @ [''A'', ''x'', ''x''] # []) = Inl AssertionError"
proof -
  let ?st = "\<lparr>slot_name = Some ''cur'', slot_class = ''CurrencySlot'',
          info_question = ''Which currency?'', generative_slot_values = [],
          nongenerative_slot_values = [], normal_names_order = [], result_slots = []\<rparr>"
  have a: "tsv_rows simple_feed loader_start [[''cur.CurrencySlot'', ''Which currency?'']] = Inr ?st"
    by (simp add: tsv_row_def header_row_def loader_start_def py_split_def is_space_def strip_def)
  have b: "slot_name ?st \<noteq> None" by simp
  have c: "set (synonyms ''x'') \<inter> set (synonyms ''x'') \<noteq> {}" by (simp add: synonyms_def)
  from a c overlapping_row_rejected [OF a b c, of "''A''" "[]"] show ?thesis by simp
qed

section \<open>A probe equal to a vocabulary key\<close>

text \<open>
  Claim C5, as stated, fails: the slot loaded from the canonical values \<open>york\<close> and
  \<open>new york\<close> resolves the probe \<open>new york\<close>, which is one of its keys, to \<open>york\<close>.  The
  key \<open>york\<close> is scanned first and also scores 100 (it occurs in the probe), and a later
  key replaces the kept one only with a strictly greater score.
\<close>

theorem exact_key_counterexample:
  "read_slots_from_tsv simple_feed [[''city.DictionarySlot'', ''Where?''], [''york''], [''new york'']] =
     Inr [DictionarySlot (DictionarySlot_init ''city'' ''Where?''
            [(''york'', ''york''), (''new york'', ''new york'')] [] [''york'', ''new york''])]
   \<and> space_join (map token_text [\<lparr>token_text = ''new''\<rparr>, \<lparr>token_text = ''york''\<rparr>]) = ''new york''
   \<and> normal_value (DictionarySlot_init ''city'' ''Where?''
         [(''york'', ''york''), (''new york'', ''new york'')] [] [''york'', ''new york''])
         (Some ''new york'') = ''new york''
   \<and> containment_ratio ''new york'' ''new york'' = 100
   \<and> infer containment_ratio (DictionarySlot_init ''city'' ''Where?''
         [(''york'', ''york''), (''new york'', ''new york'')] [] [''york'', ''new york''])
         [\<lparr>token_text = ''new''\<rparr>, \<lparr>token_text = ''york''\<rparr>] = Some ''york''"
  by (simp add: loader_defs infer_defs)

text \<open>
  Claim C5, amended: let the probe be exactly equal to a vocabulary key \<open>k\<close> of a
  dictionary slot whose threshold is at most 100, and let the scorer give 100 for \<open>k\<close>
  against itself and at most 100 for every key.  Then resolution returns a value, the
  canonical value of the first key in scan order that scores 100 against the probe; it
  is the canonical value of \<open>k\<close> itself when no key scanned before \<open>k\<close> scores 100.
\<close>

theorem exact_key_resolves:
  assumes key: "k \<in> set (dict_keys (gen_dict self) @ dict_keys (nongen_dict self))"
    and probe: "space_join (map token_text text) = k"
    and exact: "ratio k k = 100"
    and bound: "\<forall>k'\<in>set (dict_keys (gen_dict self) @ dict_keys (nongen_dict self)). ratio k' k \<le> 100"
    and thr: "threshold self \<le> 100"
  shows "infer ratio self text =
           Some (normal_value self (List.find (\<lambda>k'. ratio k' k = 100)
              (dict_keys (gen_dict self) @ dict_keys (nongen_dict self))))
         \<and> ((\<forall>k'\<in>set (takeWhile (\<lambda>x. x \<noteq> k) (dict_keys (gen_dict self) @ dict_keys (nongen_dict self))).
               ratio k' k < 100)
            \<longrightarrow> infer ratio self text = Some (normal_value self (Some k)))"
proof -
  define ks where "ks = dict_keys (gen_dict self) @ dict_keys (nongen_dict self)"
  let ?f = "\<lambda>k'. ratio k' k"
  have kin: "k \<in> set ks" using key by (simp add: ks_def)
  have mx: "Max (set (map ?f ks)) = 100"
  proof (rule Max_eqI)
    show "finite (set (map ?f ks))" by simp
    show "\<And>y. y \<in> set (map ?f ks) \<Longrightarrow> y \<le> 100" using bound by (auto simp: ks_def)
    show "100 \<in> set (map ?f ks)" using kin exact by force
  qed
  have "\<exists>k'\<in>set ks. ?f k' > 0" using kin exact by force
  then have scan: "best_scan ratio k ks (0, None) = (100, List.find (\<lambda>k'. ?f k' = 100) ks)"
    using best_scan_improve[of ks 0 ratio k None] mx by simp
  have first: "infer ratio self text = Some (normal_value self (List.find (\<lambda>k'. ?f k' = 100) ks))"
    using scan thr probe unfolding infer_def ks_def[symmetric] by (simp add: Let_def)
  have "List.find (\<lambda>k'. ?f k' = 100) ks = Some k"
    if "\<forall>k'\<in>set (takeWhile (\<lambda>x. x \<noteq> k) ks). ?f k' < 100"
    using kin exact that by (intro find_first_at) auto
  with first show ?thesis unfolding ks_def by simp
qed

theorem exact_key_resolves_witness:
  "''york'' \<in> set (dict_keys (gen_dict (DictionarySlot_init ''city'' ''Where?''
         [(''york'', ''york''), (''new york'', ''new york'')] [] [''york'', ''new york'']))
       @ dict_keys (nongen_dict (DictionarySlot_init ''city'' ''Where?''
         [(''york'', ''york''), (''new york'', ''new york'')] [] [''york'', ''new york''])))
   \<and> space_join (map token_text [\<lparr>token_text = ''york''\<rparr>]) = ''york''
   \<and> containment_ratio ''york'' ''york'' = 100
   \<and> infer containment_ratio (DictionarySlot_init ''city'' ''Where?''
         [(''york'', ''york''), (''new york'', ''new york'')] [] [''york'', ''new york''])
         [\<lparr>token_text = ''york''\<rparr>] = Some ''york''"
proof -
  let ?b = "DictionarySlot_init ''city'' ''Where?''
         [(''york'', ''york''), (''new york'', ''new york'')] [] [''york'', ''new york'']"
  have key: "''york'' \<in> set (dict_keys (gen_dict ?b) @ dict_keys (nongen_dict ?b))"
    by (simp add: DictionarySlot_init_def dict_keys_def)
  have probe: "space_join (map token_text [\<lparr>token_text = ''york''\<rparr>]) = ''york''" by simp
  have exact: "containment_ratio ''york'' ''york'' = 100" by (simp add: containment_ratio_def)
  have bound: "\<forall>k'\<in>set (dict_keys (gen_dict ?b) @ dict_keys (nongen_dict ?b)).
      containment_ratio k' ''york'' \<le> 100"
    by (simp add: DictionarySlot_init_def dict_keys_def containment_ratio_def)
  have thr: "threshold ?b \<le> 100" by (simp add: DictionarySlot_init_def)
  have first: "\<forall>k'\<in>set (takeWhile (\<lambda>x. x \<noteq> ''york'')
      (dict_keys (gen_dict ?b) @ dict_keys (nongen_dict ?b))). containment_ratio k' ''york'' < 100"
    by (simp add: DictionarySlot_init_def dict_keys_def)
  from exact_key_resolves [of "''york''" ?b "[\<lparr>token_text = ''york''\<rparr>]" containment_ratio,
      OF key probe exact bound thr] first
  have "infer containment_ratio ?b [\<lparr>token_text = ''york''\<rparr>] = Some (normal_value ?b (Some ''york''))"
    by blast
  then have "infer containment_ratio ?b [\<lparr>token_text = ''york''\<rparr>] = Some ''york''"
    by (simp add: normal_value_def dict_get_def DictionarySlot_init_def)
  with key probe exact show ?thesis by blast
qed

section \<open>Compositional resolution\<close>

text \<open>
  Claim C6: for every compositional slot and every input, both entry points go through
  the children in their order and return the outcome of the first child that does not
  return null (a value, or the exception a child raises, which leaves the loop); the
  composite returns null exactly when every child returns null; a child that returns a
  value after children that all returned null decides the result; and when the children
  at index 0 and index 1 both return a value, the composite returns the one of index 0.
\<close>

theorem compositional_first_non_null:
  "(infer_from_compositional_request ext (CompositionalSlot b children) text = Inr None
      \<longleftrightarrow> (\<forall>s\<in>set children. infer_from_compositional_request ext s text = Inr None))
   \<and> (infer_from_single_slot ext (CompositionalSlot b children) text = Inr None
      \<longleftrightarrow> (\<forall>s\<in>set children. infer_from_single_slot ext s text = Inr None))
   \<and> (\<forall>i v. i < length children
        \<and> (\<forall>j<i. infer_from_compositional_request ext (children ! j) text = Inr None)
        \<and> infer_from_compositional_request ext (children ! i) text = Inr (Some v)
      \<longrightarrow> infer_from_compositional_request ext (CompositionalSlot b children) text = Inr (Some v))
   \<and> (\<forall>i v. i < length children
        \<and> (\<forall>j<i. infer_from_single_slot ext (children ! j) text = Inr None)
        \<and> infer_from_single_slot ext (children ! i) text = Inr (Some v)
      \<longrightarrow> infer_from_single_slot ext (CompositionalSlot b children) text = Inr (Some v))
   \<and> (\<forall>a b' rest va vb. children = a # b' # rest
        \<and> infer_from_compositional_request ext a text = Inr (Some va)
        \<and> infer_from_compositional_request ext b' text = Inr (Some vb)
      \<longrightarrow> infer_from_compositional_request ext (CompositionalSlot b children) text = Inr (Some va))
   \<and> (\<forall>a b' rest va vb. children = a # b' # rest
        \<and> infer_from_single_slot ext a text = Inr (Some va)
        \<and> infer_from_single_slot ext b' text = Inr (Some vb)
      \<longrightarrow> infer_from_single_slot ext (CompositionalSlot b children) text = Inr (Some va))
   \<and> infer_from_compositional_request ext (CompositionalSlot b children) text =
       (case List.find (\<lambda>r. r \<noteq> Inr None)
               (map (\<lambda>s. infer_from_compositional_request ext s text) children) of
          None \<Rightarrow> Inr None | Some r \<Rightarrow> r)
   \<and> infer_from_single_slot ext (CompositionalSlot b children) text =
       (case List.find (\<lambda>r. r \<noteq> Inr None)
               (map (\<lambda>s. infer_from_single_slot ext s text) children) of
          None \<Rightarrow> Inr None | Some r \<Rightarrow> r)"
proof -
  let ?req = "\<lambda>s. infer_from_compositional_request ext s text"
  let ?one = "\<lambda>s. infer_from_single_slot ext s text"
  have req: "infer_from_compositional_request ext (CompositionalSlot b children) text =
       (case List.find (\<lambda>r. r \<noteq> Inr None) (map ?req children) of None \<Rightarrow> Inr None | Some r \<Rightarrow> r)"
    by (simp add: children_compositional_request_find)
  have one: "infer_from_single_slot ext (CompositionalSlot b children) text =
       (case List.find (\<lambda>r. r \<noteq> Inr None) (map ?one children) of None \<Rightarrow> Inr None | Some r \<Rightarrow> r)"
    by (simp add: children_single_slot_find)
  have c1: "?req (CompositionalSlot b children) = Inr None \<longleftrightarrow> (\<forall>s\<in>set children. ?req s = Inr None)"
    unfolding req by (rule first_outcome_null_iff)
  have c2: "?one (CompositionalSlot b children) = Inr None \<longleftrightarrow> (\<forall>s\<in>set children. ?one s = Inr None)"
    unfolding one by (rule first_outcome_null_iff)
  have c3: "\<forall>i v. i < length children \<and> (\<forall>j<i. ?req (children ! j) = Inr None)
        \<and> ?req (children ! i) = Inr (Some v) \<longrightarrow> ?req (CompositionalSlot b children) = Inr (Some v)"
    unfolding req using first_outcome_at[of _ children ?req] by blast
  have c4: "\<forall>i v. i < length children \<and> (\<forall>j<i. ?one (children ! j) = Inr None)
        \<and> ?one (children ! i) = Inr (Some v) \<longrightarrow> ?one (CompositionalSlot b children) = Inr (Some v)"
    unfolding one using first_outcome_at[of _ children ?one] by blast
  have c5: "\<forall>a b' rest va vb. children = a # b' # rest \<and> ?req a = Inr (Some va) \<and> ?req b' = Inr (Some vb)
      \<longrightarrow> ?req (CompositionalSlot b children) = Inr (Some va)"
    by auto
  have c6: "\<forall>a b' rest va vb. children = a # b' # rest \<and> ?one a = Inr (Some va) \<and> ?one b' = Inr (Some vb)
      \<longrightarrow> ?one (CompositionalSlot b children) = Inr (Some va)"
    by auto
  from c1 c2 c3 c4 c5 c6 req one show ?thesis by blast
qed

theorem compositional_first_non_null_witness:
  "infer_from_compositional_request example_ext
       (DictionarySlot (DictionarySlot_init ''town'' ''Where?'' [(''york'', ''york'')] [] [''york'']))
       [\<lparr>token_text = ''new''\<rparr>, \<lparr>token_text = ''york''\<rparr>] = Inr (Some (Str ''york''))
   \<and> infer_from_compositional_request example_ext
       (DictionarySlot (DictionarySlot_init ''city'' ''Where?'' [(''new york'', ''new york'')] []
          [''new york'']))
       [\<lparr>token_text = ''new''\<rparr>, \<lparr>token_text = ''york''\<rparr>] = Inr (Some (Str ''new york''))
   \<and> infer_from_compositional_request example_ext
       (CompositionalSlot (DictionarySlot_init ''place'' ''Where?'' [] [] [])
          [DictionarySlot (DictionarySlot_init ''town'' ''Where?'' [(''york'', ''york'')] [] [''york'']),
           DictionarySlot (DictionarySlot_init ''city'' ''Where?'' [(''new york'', ''new york'')] []
             [''new york''])])
       [\<lparr>token_text = ''new''\<rparr>, \<lparr>token_text = ''york''\<rparr>] = Inr (Some (Str ''york''))"
proof -
  let ?a = "DictionarySlot (DictionarySlot_init ''town'' ''Where?'' [(''york'', ''york'')] [] [''york''])"
  let ?b = "DictionarySlot (DictionarySlot_init ''city'' ''Where?'' [(''new york'', ''new york'')] []
          [''new york''])"
  let ?t = "[\<lparr>token_text = ''new''\<rparr>, \<lparr>token_text = ''york''\<rparr>]"
  have a: "infer_from_compositional_request example_ext ?a ?t = Inr (Some (Str ''york''))"
    by (simp add: infer_defs)
  have b: "infer_from_compositional_request example_ext ?b ?t = Inr (Some (Str ''new york''))"
    by (simp add: infer_defs)
  from compositional_first_non_null
    [of example_ext "DictionarySlot_init ''place'' ''Where?'' [] [] []" "[?a, ?b]" ?t] a b
  have "infer_from_compositional_request example_ext
      (CompositionalSlot (DictionarySlot_init ''place'' ''Where?'' [] [] []) [?a, ?b]) ?t =
      Inr (Some (Str ''york''))"
    by blast
  with a b show ?thesis by blast
qed

section \<open>Missing classifier artifacts\<close>

text \<open>
  Claim C7: when the schema's rows load to a slot list that contains a classifier slot
  whose artifact \<^verbatim>\<open><folder>/<slot id>.model\<close> does not exist, loading with trained models
  fails (its result is an exception, so no slot list is returned to infer with); and
  \<^verbatim>\<open>load_model\<close> on a path that does not exist fails with its own exception
  \<^verbatim>\<open>Exception("Model path: '<path>' doesnt exist")\<close>.
\<close>

theorem missing_artifact_fails_load:
  "(\<forall>slots_array s. read_slots_from_tsv feed rows = Inr slots_array \<and> s \<in> set slots_array
        \<and> isinstance_ClassifierSlot s
        \<and> fs (path_join folder (slot_id (base s) @ ''.model'')) = None
      \<longrightarrow> (\<exists>e. read_slots_serialized fs folder feed rows = Inl e))
   \<and> (fs model_path = None \<longrightarrow>
        load_model fs (ClassifierSlot b true m) model_path =
          Inl (Exception (''Model path: '' @ [CHR 0x27] @ model_path @ [CHR 0x27] @ '' doesnt exist'')))"
  using load_models_missing_artifact[of _ _ fs folder]
  by (auto simp: read_slots_serialized_def)

theorem missing_artifact_fails_load_witness:
  "read_slots_from_tsv simple_feed [[''rep.ClassifierSlot'', ''Again?''], [''yes''], [''no'']] =
     Inr [ClassifierSlot \<lparr>slot_id = ''rep'', ask_sentence = ''Again?'',
            gen_dict = [(''yes'', ''yes''), (''no'', ''no'')], nongen_dict = [], threshold = 84,
            values_order = [''yes'', ''no'']\<rparr> ''yes'' None]
   \<and> no_files (path_join ''models'' (''rep'' @ ''.model'')) = None
   \<and> (\<exists>e. read_slots_serialized no_files ''models'' simple_feed
          [[''rep.ClassifierSlot'', ''Again?''], [''yes''], [''no'']] = Inl e)
   \<and> load_model no_files (ClassifierSlot \<lparr>slot_id = ''rep'', ask_sentence = ''Again?'',
            gen_dict = [(''yes'', ''yes''), (''no'', ''no'')], nongen_dict = [], threshold = 84,
            values_order = [''yes'', ''no'']\<rparr> ''yes'' None) ''models/rep.model'' =
        Inl (Exception ''Model path: 'models/rep.model' doesnt exist'')"
proof -
  let ?rows = "[[''rep.ClassifierSlot'', ''Again?''], [''yes''], [''no'']]"
  let ?s = "ClassifierSlot \<lparr>slot_id = ''rep'', ask_sentence = ''Again?'',
            gen_dict = [(''yes'', ''yes''), (''no'', ''no'')], nongen_dict = [], threshold = 84,
            values_order = [''yes'', ''no'']\<rparr> ''yes'' None"
  have rd: "read_slots_from_tsv simple_feed ?rows = Inr [?s]"
    by (simp add: loader_defs)
  have nf: "no_files (path_join ''models'' (''rep'' @ ''.model'')) = None"
    by (simp add: no_files_def)
  have nf': "no_files ''models/rep.model'' = None"
    by (simp add: no_files_def)
  from missing_artifact_fails_load[of simple_feed ?rows no_files "''models''" "''models/rep.model''"
      "\<lparr>slot_id = ''rep'', ask_sentence = ''Again?'',
            gen_dict = [(''yes'', ''yes''), (''no'', ''no'')], nongen_dict = [], threshold = 84,
            values_order = [''yes'', ''no'']\<rparr>" "''yes''" None]
  have a: "\<exists>e. read_slots_serialized no_files ''models'' simple_feed ?rows = Inl e"
    and b: "load_model no_files ?s ''models/rep.model'' =
        Inl (Exception (''Model path: '' @ [CHR 0x27] @ ''models/rep.model'' @ [CHR 0x27] @ '' doesnt exist''))"
    using rd nf nf' by auto
  from rd nf a b show ?thesis by simp
qed

section \<open>Empty input and empty vocabulary\<close>



section \<open>The trailing block\<close>

text \<open>
  When the rows end inside a block whose slot id is not empty, the flush after the loop
  builds the same slot list as a terminating blank row would (lemma
  \<open>trailing_block_flushed\<close> above).

  Claim C9 at a failing input: the header \<open>.DictionarySlot\<close> gives the empty slot id.  With
  a terminating blank row the block becomes a slot; without it the block is dropped and
  the returned list is empty.  The loop tests \<^verbatim>\<open>slot_name is None\<close>, the flush tests the
  truth value of \<^verbatim>\<open>slot_name\<close>, and the empty string is false.
\<close>

theorem trailing_block_with_empty_id_dropped:
  "read_slots_from_tsv simple_feed [[''.DictionarySlot'', ''Which currency?''], [''usd'']] = Inr []
   \<and> read_slots_from_tsv simple_feed [[''.DictionarySlot'', ''Which currency?''], [''usd''], []] =
       Inr [DictionarySlot
              \<lparr>slot_id = [], ask_sentence = ''Which currency?'', gen_dict = [(''usd'', ''usd'')],
               nongen_dict = [], threshold = 84, values_order = [''usd'']\<rparr>]"
  by (simp add: loader_defs)

section \<open>Canonical values of loaded slots\<close>

text \<open>
  Claim C10, as stated, fails in its first half: a canonical value need not map to itself.
  The row of \<open>visa\<close> lists \<open>card\<close>, the canonical value of the row before, as a generative
  synonym, and the later assignment overwrites the entry of \<open>card\<close>.
\<close>

theorem canonical_value_overwritten_counterexample:
  "read_slots_from_tsv simple_feed [[''pay.DictionarySlot'', ''How will you pay?''], [''card''], [''visa'', ''card'']] =
     Inr [DictionarySlot
            \<lparr>slot_id = ''pay'', ask_sentence = ''How will you pay?'',
             gen_dict = [(''card'', ''visa''), (''visa'', ''visa'')], nongen_dict = [],
             threshold = 84, values_order = [''card'', ''visa'']\<rparr>]
   \<and> ''card'' \<in> set [''card'', ''visa'']
   \<and> map_of [(''card'', ''visa''), (''visa'', ''visa'')] ''card'' = Some ''visa''
   \<and> ''visa'' \<noteq> ''card''"
  by (simp add: loader_defs)

text \<open>
  Claim C10, amended: for every slot produced by the schema loader, every canonical value
  (element of \<open>values_order\<close>) is a key of the generative dict, and every value stored in
  the generative or the nongenerative dict is a canonical value; consequently, whenever
  base dictionary resolution returns a value for such a slot, that value is a canonical
  value stored in one of the two dicts, never a mere surface form and never the
  empty-string fallback of the normalisation lookup.
\<close>

theorem loaded_slot_values_canonical:
  assumes "read_slots_from_tsv feed rows = Inr slots_array" and "s \<in> set slots_array"
  shows "set (values_order (base s)) \<subseteq> set (dict_keys (gen_dict (base s)))
     \<and> set (dict_values (gen_dict (base s))) \<union> set (dict_values (nongen_dict (base s)))
          \<subseteq> set (values_order (base s))
     \<and> (infer ratio (base s) text = Some v \<longrightarrow>
          v \<in> set (values_order (base s))
          \<and> v \<in> set (dict_values (gen_dict (base s))) \<union> set (dict_values (nongen_dict (base s))))"
proof -
  from read_slots_from_tsv_inv[OF assms] have c: "canonical_base (base s)" by simp
  then have "0 < threshold (base s)" by (simp add: canonical_base_def)
  from infer_returns_stored_value[OF this, of ratio "text" v] c show ?thesis
    by (auto simp: canonical_base_def)
qed

theorem loaded_slot_values_canonical_witness:
  "read_slots_from_tsv simple_feed [[''cur.CurrencySlot'', ''Which currency?''], [''usd'', ''$'']] =
     Inr [CurrencySlot
            \<lparr>slot_id = ''cur'', ask_sentence = ''Which currency?'',
             gen_dict = [(''usd'', ''usd''), (''$'', ''usd'')], nongen_dict = [], threshold = 84,
             values_order = [''usd'']\<rparr> [''rub'', ''eur'', ''usd'']]
   \<and> infer containment_ratio
        \<lparr>slot_id = ''cur'', ask_sentence = ''Which currency?'',
         gen_dict = [(''usd'', ''usd''), (''$'', ''usd'')], nongen_dict = [], threshold = 84,
         values_order = [''usd'']\<rparr> [\<lparr>token_text = ''$''\<rparr>] = Some ''usd''
   \<and> ''usd'' \<in> set (values_order
        \<lparr>slot_id = ''cur'', ask_sentence = ''Which currency?'',
         gen_dict = [(''usd'', ''usd''), (''$'', ''usd'')], nongen_dict = [], threshold = 84,
         values_order = [''usd'']\<rparr>)"
proof -
  let ?b = "\<lparr>slot_id = ''cur'', ask_sentence = ''Which currency?'',
         gen_dict = [(''usd'', ''usd''), (''$'', ''usd'')], nongen_dict = [], threshold = 84,
         values_order = [''usd'']\<rparr>"
  let ?s = "CurrencySlot ?b [''rub'', ''eur'', ''usd'']"
  let ?rows = "[[''cur.CurrencySlot'', ''Which currency?''], [''usd'', ''$'']]"
  have rd: "read_slots_from_tsv simple_feed ?rows = Inr [?s]"
    by (simp add: loader_defs)
  have mem: "?s \<in> set [?s]" by simp
  have inf: "infer containment_ratio ?b [\<lparr>token_text = ''$''\<rparr>] = Some ''usd''"
    by (simp add: infer_defs)
  from loaded_slot_values_canonical [OF rd mem, of containment_ratio "[\<lparr>token_text = ''$''\<rparr>]" "''usd''"] inf
  have "''usd'' \<in> set (values_order ?b)" by simp
  with rd inf show ?thesis by blast
qed

end
